theory Spec2Isabelle
  imports Main
begin

section \<open>Python values\<close>

text \<open>
  The state threaded through a run is a Python dict with string keys
  (\<^verbatim>\<open>Dict[str, Any]\<close> in models.py). Its values are modelled as the JSON-like
  values the request layer delivers: None, booleans, integers, strings, lists and
  dicts (an association list with distinct keys). Floating-point numbers and objects
  with user-defined comparison methods are outside the model.
\<close>

datatype pyval =
    PNone
  | PBool bool
  | PInt int
  | PStr string
  | PList "pyval list"
  | PDict "(string \<times> pyval) list"

type_synonym pydict = "string \<rightharpoonup> pyval"

text \<open>
  Exceptions carry their class and the text \<^verbatim>\<open>str(e)\<close> yields, which is what
  \<^verbatim>\<open>_runner\<close> stores in the run's error field. Both handlers of engine.py are
  \<^verbatim>\<open>except Exception\<close>. \<^verbatim>\<open>UserError\<close> stands for any other class deriving from
  \<^verbatim>\<open>Exception\<close> that a node or a predicate raises. \<^verbatim>\<open>CancelledError\<close> (of asyncio,
  raised inside an await), \<^verbatim>\<open>KeyboardInterrupt\<close>, \<^verbatim>\<open>SystemExit\<close> and
  \<^verbatim>\<open>GeneratorExit\<close> derive from \<^verbatim>\<open>BaseException\<close> only, and the handlers let them
  pass.
\<close>

datatype exn_class =
    KeyError | ValueError | TypeError | UserError
  | CancelledError | KeyboardInterrupt | SystemExit | GeneratorExit

datatype exn = Exn exn_class string

text \<open>\<^verbatim>\<open>isinstance(e, Exception)\<close>: what \<^verbatim>\<open>except Exception\<close> catches.\<close>

fun is_Exception :: "exn \<Rightarrow> bool" where
  "is_Exception (Exn KeyError s) = True"
| "is_Exception (Exn ValueError s) = True"
| "is_Exception (Exn TypeError s) = True"
| "is_Exception (Exn UserError s) = True"
| "is_Exception (Exn CancelledError s) = False"
| "is_Exception (Exn KeyboardInterrupt s) = False"
| "is_Exception (Exn SystemExit s) = False"
| "is_Exception (Exn GeneratorExit s) = False"

fun exn_str :: "exn \<Rightarrow> string" where
  "exn_str (Exn c s) = s"

fun type_name :: "pyval \<Rightarrow> string" where
  "type_name PNone = ''NoneType''"
| "type_name (PBool b) = ''bool''"
| "type_name (PInt i) = ''int''"
| "type_name (PStr s) = ''str''"
| "type_name (PList xs) = ''list''"
| "type_name (PDict d) = ''dict''"

text \<open>Truthiness, as \<^verbatim>\<open>if x:\<close> and \<^verbatim>\<open>x or y\<close> test it.\<close>

fun truthy :: "pyval \<Rightarrow> bool" where
  "truthy PNone = False"
| "truthy (PBool b) = b"
| "truthy (PInt i) = (i \<noteq> 0)"
| "truthy (PStr s) = (s \<noteq> [])"
| "truthy (PList xs) = (xs \<noteq> [])"
| "truthy (PDict d) = (d \<noteq> [])"

text \<open>A bool is an int in Python: \<^verbatim>\<open>True == 1\<close> and \<^verbatim>\<open>True >= 0\<close>.\<close>

fun as_int :: "pyval \<Rightarrow> int option" where
  "as_int (PBool b) = Some (if b then 1 else 0)"
| "as_int (PInt i) = Some i"
| "as_int _ = None"

text \<open>\<^verbatim>\<open>a == b\<close>: never raises on these values.\<close>

fun py_eq :: "pyval \<Rightarrow> pyval \<Rightarrow> bool" where
  "py_eq PNone w = (w = PNone)"
| "py_eq (PBool b) w = (as_int w = Some (if b then 1 else 0))"
| "py_eq (PInt i) w = (as_int w = Some i)"
| "py_eq (PStr s) w = (w = PStr s)"
| "py_eq (PList xs) w = (case w of PList ys \<Rightarrow> list_all2 py_eq xs ys | _ \<Rightarrow> False)"
| "py_eq (PDict d) w =
     (case w of
        PDict e \<Rightarrow>
          length d = length e \<and>
          list_all (\<lambda>kv. case map_of e (fst kv) of None \<Rightarrow> False
                                                  | Some u \<Rightarrow> py_eq (snd kv) u) d
      | _ \<Rightarrow> False)"

text \<open>
  The ordering operators. Numbers compare by value, strings and lists
  lexicographically (a list by its first pair of unequal elements, else by length);
  every other pairing raises TypeError.
\<close>

datatype cmp_op = GE | LE | GT | LT

fun op_symbol :: "cmp_op \<Rightarrow> string" where
  "op_symbol GE = ''>=''"
| "op_symbol LE = ''<=''"
| "op_symbol GT = ''>''"
| "op_symbol LT = ''<''"

fun int_cmp :: "cmp_op \<Rightarrow> int \<Rightarrow> int \<Rightarrow> bool" where
  "int_cmp GE a b = (a \<ge> b)"
| "int_cmp LE a b = (a \<le> b)"
| "int_cmp GT a b = (a > b)"
| "int_cmp LT a b = (a < b)"

fun str_lt :: "string \<Rightarrow> string \<Rightarrow> bool" where
  "str_lt [] [] = False"
| "str_lt [] (y # ys) = True"
| "str_lt (x # xs) [] = False"
| "str_lt (x # xs) (y # ys) =
     (if x = y then str_lt xs ys else (of_char x :: nat) < of_char y)"

fun str_cmp :: "cmp_op \<Rightarrow> string \<Rightarrow> string \<Rightarrow> bool" where
  "str_cmp GE a b = (\<not> str_lt a b)"
| "str_cmp LE a b = (\<not> str_lt b a)"
| "str_cmp GT a b = str_lt b a"
| "str_cmp LT a b = str_lt a b"

fun first_diff :: "pyval list \<Rightarrow> pyval list \<Rightarrow> (pyval \<times> pyval) option" where
  "first_diff (x # xs) (y # ys) = (if py_eq x y then first_diff xs ys else Some (x, y))"
| "first_diff _ _ = None"

definition quoted :: "string \<Rightarrow> string" where
  "quoted s = CHR 0x27 # s @ [CHR 0x27]"

definition not_supported :: "cmp_op \<Rightarrow> pyval \<Rightarrow> pyval \<Rightarrow> exn" where
  "not_supported opr a b =
     Exn TypeError (quoted (op_symbol opr) @ '' not supported between instances of ''
                    @ quoted (type_name a) @ '' and '' @ quoted (type_name b))"

function (sequential) py_cmp :: "cmp_op \<Rightarrow> pyval \<Rightarrow> pyval \<Rightarrow> exn + bool" where
  "py_cmp opr (PStr s) (PStr t) = Inr (str_cmp opr s t)"
| "py_cmp opr (PList xs) (PList ys) =
     (case first_diff xs ys of
        Some (x, y) \<Rightarrow> py_cmp opr x y
      | None \<Rightarrow> Inr (int_cmp opr (int (length xs)) (int (length ys))))"
| "py_cmp opr a b =
     (case (as_int a, as_int b) of
        (Some i, Some j) \<Rightarrow> Inr (int_cmp opr i j)
      | _ \<Rightarrow> Inl (not_supported opr a b))"
  by pat_completeness auto
termination
proof (relation "measure (\<lambda>(opr, a, b). size a)", goal_cases)
  case 1
  show ?case by simp
next
  case (2 opr xs ys pr x y)
  have mem: "first_diff us vs = Some (u, v) \<Longrightarrow> u \<in> set us" for us vs u v
    by (induction us vs rule: first_diff.induct) (auto split: if_splits)
  from 2 have "x \<in> set xs" by (auto dest: mem)
  then have "size x < Suc (size_list size xs)"
    by (induction xs) auto
  then show ?case by simp
qed

section \<open>models.py\<close>

text \<open>
  The fields of NodeResult carry the prefix \<open>nr_\<close>, since RunState has a field
  \<^verbatim>\<open>state\<close> too.
\<close>

record NodeResult =
  nr_state :: pydict
  nr_log :: "string option"
  nr_next_node :: "string option"

text \<open>
  What a node function hands back: a NodeResult, a dict (with string keys, which the
  validation of NodeResult requires), or anything else (None included). A value is
  either there at once or is a coroutine object, whose awaiting raises or yields the
  value; a single run awaits it on the spot.
\<close>

datatype node_ret = RNodeResult NodeResult | RDict pydict | ROther

datatype 'a ret = Plain 'a | Coro "exn + 'a"

text \<open>
  A node is either a coroutine function (\<^verbatim>\<open>async def\<close>: the call itself cannot fail,
  the await can) or a plain function, whose call raises or returns. A call always does
  one or the other. Nodes read the state they are given and do not mutate it, as the
  nodes of code_review.py do.
\<close>

datatype node_fn =
    CoroutineFn "pydict \<Rightarrow> exn + node_ret"
  | SyncFn "pydict \<Rightarrow> exn + node_ret ret"

text \<open>
  An entry of the edge table: a string, a dict, or some other value; an entry that is
  None is the same as no entry. The keys a dict entry is asked for are the fields of
  \<open>edge_dict\<close>, each None when the key is absent: \<open>e_cond\<close> holds the value of
  \<^verbatim>\<open>"cond"\<close> when it is callable, and the targets \<^verbatim>\<open>"true"\<close>, \<^verbatim>\<open>"false"\<close> and
  \<^verbatim>\<open>"next"\<close> are node names.
\<close>

record edge_dict =
  e_cond :: "(pydict \<Rightarrow> exn + pyval ret) option"
  e_field :: "pyval option"
  e_op :: "pyval option"
  e_value :: "pyval option"
  e_true :: "string option"
  e_false :: "string option"
  e_next :: "string option"

datatype edge = EStr string | EDict edge_dict | EOther

record GraphSpec =
  nodes :: "string \<rightharpoonup> node_fn"
  edges :: "string \<rightharpoonup> edge"
  start_node :: string
  max_steps :: "int option"

record RunState =
  run_id :: string
  graph_id :: string
  state :: pydict
  logs :: "string list"
  current_node :: "string option"
  finished :: bool
  error :: "string option"

section \<open>engine.py\<close>

record engine =
  graphs :: "string \<rightharpoonup> GraphSpec"
  runs :: "string \<rightharpoonup> RunState"

text \<open>\<^verbatim>\<open>create_graph\<close>; the identifier \<^verbatim>\<open>uuid4\<close> draws is a parameter.\<close>

definition create_graph :: "engine \<Rightarrow> GraphSpec \<Rightarrow> string \<Rightarrow> string \<times> engine" where
  "create_graph eng spec new_id = (new_id, eng\<lparr>graphs := (graphs eng)(new_id \<mapsto> spec)\<rparr>)"

text \<open>
  \<^verbatim>\<open>_call_node\<close>. \<^verbatim>\<open>nodes.get(current)\<close> is None for a name that is not a key, and
  calling None raises TypeError.
\<close>

definition not_callable :: exn where
  "not_callable = Exn TypeError (quoted ''NoneType'' @ '' object is not callable'')"

definition call_node :: "node_fn option \<Rightarrow> pydict \<Rightarrow> exn + (pydict \<times> NodeResult)" where
  "call_node node_fn st =
     (case (case node_fn of
              None \<Rightarrow> Inl not_callable
            | Some (CoroutineFn f) \<Rightarrow> f st
            | Some (SyncFn f) \<Rightarrow>
                (case f st of
                   Inl e \<Rightarrow> Inl e
                 | Inr (Plain r) \<Rightarrow> Inr r
                 | Inr (Coro c) \<Rightarrow> c)) of
        Inl e \<Rightarrow> Inl e
      | Inr (RNodeResult res) \<Rightarrow> Inr (nr_state res, res)
      | Inr (RDict res) \<Rightarrow>
          Inr (res, \<lparr>nr_state = res, nr_log = Some ''node returned dict'',
                     nr_next_node = None\<rparr>)
      | Inr ROther \<Rightarrow>
          Inr (st, \<lparr>nr_state = st, nr_log = Some ''node returned unexpected type; no change'',
                    nr_next_node = None\<rparr>))"

text \<open>
  \<^verbatim>\<open>state.get(k)\<close> for a key taken from an edge dict: None when the key is not there,
  TypeError when the key cannot be hashed.
\<close>

fun state_get :: "pydict \<Rightarrow> pyval \<Rightarrow> exn + pyval" where
  "state_get st (PStr k) = Inr (case st k of None \<Rightarrow> PNone | Some v \<Rightarrow> v)"
| "state_get st (PList xs) = Inl (Exn TypeError (''unhashable type: '' @ quoted ''list''))"
| "state_get st (PDict d) = Inl (Exn TypeError (''unhashable type: '' @ quoted ''dict''))"
| "state_get st k = Inr PNone"

text \<open>
  The branching part of \<^verbatim>\<open>_execute\<close> (the lines from \<^verbatim>\<open>next_node = None\<close> to the
  last \<^verbatim>\<open>else\<close>): the next node name, or None, from the node's result, the edge table,
  the current node and the merged state. \<open>cond_value\<close> is the \<^verbatim>\<open>try\<close> statement around
  the predicate: its call, the await of a coroutine it returned, and the handler.
\<close>

definition cond_value :: "(pydict \<Rightarrow> exn + pyval ret) \<Rightarrow> pydict \<Rightarrow> exn + pyval" where
  "cond_value cond st =
     (case (case cond st of
              Inl e \<Rightarrow> Inl e
            | Inr (Plain v) \<Rightarrow> Inr v
            | Inr (Coro c) \<Rightarrow> c) of
        Inl e \<Rightarrow> if is_Exception e then Inr (PBool False) else Inl e
      | Inr v \<Rightarrow> Inr v)"

definition take_true :: "pyval \<Rightarrow> pyval \<Rightarrow> pyval \<Rightarrow> exn + bool" where
  "take_true opr val cmp_val =
     (if opr = PStr ''>='' then (if val \<noteq> PNone then py_cmp GE val cmp_val else Inr False)
      else if opr = PStr ''<='' then (if val \<noteq> PNone then py_cmp LE val cmp_val else Inr False)
      else if opr = PStr ''>'' then (if val \<noteq> PNone then py_cmp GT val cmp_val else Inr False)
      else if opr = PStr ''<'' then (if val \<noteq> PNone then py_cmp LT val cmp_val else Inr False)
      else Inr (py_eq val cmp_val))"

definition resolve_next ::
  "NodeResult \<Rightarrow> (string \<rightharpoonup> edge) \<Rightarrow> string \<Rightarrow> pydict \<Rightarrow> exn + string option" where
  "resolve_next node_res edge_table current st =
     (if nr_next_node node_res \<noteq> None \<and> nr_next_node node_res \<noteq> Some []
      then Inr (nr_next_node node_res)
      else
        (case edge_table current of
           None \<Rightarrow> Inr None
         | Some (EStr s) \<Rightarrow> Inr (Some s)
         | Some (EDict edge) \<Rightarrow>
             (case e_cond edge of
                Some cond \<Rightarrow>
                  (case cond_value cond st of
                     Inl e \<Rightarrow> Inl e
                   | Inr cond_res \<Rightarrow>
                       Inr (if truthy cond_res then e_true edge else e_false edge))
              | None \<Rightarrow>
                  (case e_field edge of
                     Some fld \<Rightarrow>
                       (case state_get st fld of
                          Inl e \<Rightarrow> Inl e
                        | Inr val \<Rightarrow>
                            (case take_true (case e_op edge of None \<Rightarrow> PStr ''=='' | Some v \<Rightarrow> v)
                                    val (case e_value edge of None \<Rightarrow> PNone | Some v \<Rightarrow> v) of
                               Inl e \<Rightarrow> Inl e
                             | Inr t \<Rightarrow> Inr (if t then e_true edge else e_false edge)))
                   | None \<Rightarrow> Inr (e_next edge)))
         | Some EOther \<Rightarrow> Inr None))"

text \<open>
  One pass through the body of the \<^verbatim>\<open>while\<close> loop of \<^verbatim>\<open>_execute\<close>, after the
  step-limit test. An exception leaves the loop with the run record as mutated so far,
  so the record is returned beside the outcome. The local \<^verbatim>\<open>state\<close> and
  \<^verbatim>\<open>run_state.state\<close> are the same dict before the first merge and equal copies
  after it.
\<close>

definition show_next :: "string option \<Rightarrow> string" where
  "show_next next_node = (case next_node of None \<Rightarrow> ''None'' | Some n \<Rightarrow> n)"

definition loop_body ::
  "GraphSpec \<Rightarrow> string \<Rightarrow> pydict \<Rightarrow> RunState
     \<Rightarrow> (exn + string option \<times> pydict) \<times> RunState" where
  "loop_body spec current st run_state =
     (let rs1 = run_state\<lparr>current_node := Some current\<rparr>;
          node_fn = nodes spec current;
          rs2 = rs1\<lparr>logs := logs rs1 @ [''running '' @ current]\<rparr>
      in case call_node node_fn st of
           Inl e \<Rightarrow> (Inl e, rs2)
         | Inr (new_state, node_res) \<Rightarrow>
             (let rs3 = (case nr_log node_res of
                           None \<Rightarrow> rs2
                         | Some l \<Rightarrow>
                             if l = [] then rs2
                             else rs2\<lparr>logs := logs rs2 @ [current @ '': '' @ l]\<rparr>);
                  st' = st ++ new_state;
                  rs4 = rs3\<lparr>state := st'\<rparr>
              in case resolve_next node_res (edges spec) current st' of
                   Inl e \<Rightarrow> (Inl e, rs4)
                 | Inr next_node \<Rightarrow>
                     (Inr (next_node, st'),
                      rs4\<lparr>logs := logs rs4 @ [current @ '' -> next: '' @ show_next next_node]\<rparr>)))"

text \<open>
  The \<^verbatim>\<open>while\<close> loop. It returns the exception that ended it, if any, the final value
  of \<^verbatim>\<open>visited\<close> (the number of node steps begun) and the run record.
\<close>

function loop ::
  "GraphSpec \<Rightarrow> int \<Rightarrow> string option \<Rightarrow> int \<Rightarrow> pydict \<Rightarrow> RunState
     \<Rightarrow> exn option \<times> int \<times> RunState" where
  "loop spec limit current visited st run_state =
     (case current of
        None \<Rightarrow> (None, visited, run_state)
      | Some c \<Rightarrow>
          if visited \<ge> limit
          then (None, visited, run_state\<lparr>logs := logs run_state @ [''max steps reached; aborting'']\<rparr>)
          else
            (case loop_body spec c st run_state of
               (Inl e, rs) \<Rightarrow> (Some e, visited + 1, rs)
             | (Inr (next_node, st'), rs) \<Rightarrow> loop spec limit next_node (visited + 1) st' rs))"
  by pat_completeness auto
termination
  by (relation "measure (\<lambda>(spec, limit, current, visited, st, rs). nat (limit - visited))") auto

declare loop.simps [simp del]

text \<open>\<^verbatim>\<open>spec.max_steps or 1000\<close>: None and 0 are both falsy.\<close>

definition step_limit :: "GraphSpec \<Rightarrow> int" where
  "step_limit spec =
     (case max_steps spec of None \<Rightarrow> 1000 | Some m \<Rightarrow> if m = 0 then 1000 else m)"

text \<open>\<^verbatim>\<open>_execute\<close>: the exception it raises, if any, and the run record it leaves.\<close>

definition execute :: "GraphSpec \<Rightarrow> RunState \<Rightarrow> exn option \<times> RunState" where
  "execute spec run_state =
     (if start_node spec = [] then (Some (Exn ValueError ''graph has no start_node''), run_state)
      else
        (case loop spec (step_limit spec) (Some (start_node spec)) 0 (state run_state) run_state of
           (Some e, visited, rs) \<Rightarrow> (Some e, rs)
         | (None, visited, rs) \<Rightarrow> (None, rs\<lparr>finished := True, current_node := None\<rparr>)))"

text \<open>
  \<^verbatim>\<open>_runner\<close>, the closure of \<^verbatim>\<open>run_graph\<close>: the exception that gets past its
  handler, if any, and the run record it leaves.
\<close>

definition runner :: "GraphSpec \<Rightarrow> RunState \<Rightarrow> exn option \<times> RunState" where
  "runner spec run_state =
     (case execute spec run_state of
        (None, rs) \<Rightarrow> (None, rs)
      | (Some e, rs) \<Rightarrow>
          if is_Exception e then (None, rs\<lparr>error := Some (exn_str e), finished := True\<rparr>)
          else (Some e, rs))"

text \<open>
  \<^verbatim>\<open>run_graph\<close>; the run identifier \<^verbatim>\<open>uuid4\<close> draws is a parameter. The registry
  holds the run record itself, so what \<^verbatim>\<open>_runner\<close> does to the record shows in the
  registry, also when an exception gets past \<^verbatim>\<open>_runner\<close> to the caller of
  \<^verbatim>\<open>run_graph\<close>. With \<^verbatim>\<open>run_in_background\<close> the call only schedules \<^verbatim>\<open>_runner\<close> and
  returns with the fresh record registered; \<open>run_task\<close> is the scheduled task run to
  its end, where an exception that gets past \<^verbatim>\<open>_runner\<close> stays in the task.
\<close>

definition graph_not_found :: exn where
  "graph_not_found = Exn KeyError (quoted ''graph not found'')"

definition run_graph ::
  "engine \<Rightarrow> string \<Rightarrow> pydict \<Rightarrow> bool \<Rightarrow> string \<Rightarrow> (exn + string) \<times> engine" where
  "run_graph eng gid initial_state run_in_background new_id =
     (case graphs eng gid of
        None \<Rightarrow> (Inl graph_not_found, eng)
      | Some spec \<Rightarrow>
          (let run_state = \<lparr>run_id = new_id, graph_id = gid, state = initial_state, logs = [],
                            current_node = None, finished = False, error = None\<rparr>
           in if run_in_background
              then (Inr new_id, eng\<lparr>runs := (runs eng)(new_id \<mapsto> run_state)\<rparr>)
              else
                (case runner spec run_state of
                   (None, rs) \<Rightarrow> (Inr new_id, eng\<lparr>runs := (runs eng)(new_id \<mapsto> rs)\<rparr>)
                 | (Some e, rs) \<Rightarrow> (Inl e, eng\<lparr>runs := (runs eng)(new_id \<mapsto> rs)\<rparr>))))"

definition run_task :: "engine \<Rightarrow> GraphSpec \<Rightarrow> string \<Rightarrow> engine" where
  "run_task eng spec rid =
     (case runs eng rid of
        None \<Rightarrow> eng
      | Some run_state \<Rightarrow> eng\<lparr>runs := (runs eng)(rid \<mapsto> snd (runner spec run_state))\<rparr>)"

text \<open>
  The loop variables (\<^verbatim>\<open>current\<close>, \<^verbatim>\<open>visited\<close>, \<^verbatim>\<open>state\<close>, the run record) after
  \<open>k\<close> further complete passes of the loop, when it makes that many without stopping:
  the points an execution reaches.
\<close>

fun advance ::
  "GraphSpec \<Rightarrow> int \<Rightarrow> nat \<Rightarrow> string option \<times> int \<times> pydict \<times> RunState
     \<Rightarrow> (string option \<times> int \<times> pydict \<times> RunState) option" where
  "advance spec limit 0 vars = Some vars"
| "advance spec limit (Suc k) (current, visited, st, run_state) =
     (case current of
        None \<Rightarrow> None
      | Some c \<Rightarrow>
          if visited \<ge> limit then None
          else
            (case loop_body spec c st run_state of
               (Inl e, rs) \<Rightarrow> None
             | (Inr (next_node, st'), rs) \<Rightarrow> advance spec limit k (next_node, visited + 1, st', rs)))"

section \<open>Auxiliary facts\<close>

lemma loop_None: "loop spec limit None visited st rs = (None, visited, rs)"
  by (simp add: loop.simps)

lemma loop_abort:
  "visited \<ge> limit \<Longrightarrow>
   loop spec limit (Some c) visited st rs =
     (None, visited, rs\<lparr>logs := logs rs @ [''max steps reached; aborting'']\<rparr>)"
  by (simp add: loop.simps)

lemma loop_raise:
  "visited < limit \<Longrightarrow> loop_body spec c st rs = (Inl e, rs') \<Longrightarrow>
   loop spec limit (Some c) visited st rs = (Some e, visited + 1, rs')"
  by (simp add: loop.simps)

lemma loop_next:
  "visited < limit \<Longrightarrow> loop_body spec c st rs = (Inr (nx, st'), rs') \<Longrightarrow>
   loop spec limit (Some c) visited st rs = loop spec limit nx (visited + 1) st' rs'"
  by (simp add: loop.simps)

lemma loop_body_missing:
  "nodes spec c = None \<Longrightarrow>
   loop_body spec c st rs =
     (Inl not_callable, rs\<lparr>current_node := Some c, logs := logs rs @ [''running '' @ c]\<rparr>)"
  by (simp add: loop_body_def call_node_def)

lemma loop_body_keeps:
  "loop_body spec c st rs = (out, rs') \<Longrightarrow>
   error rs' = error rs \<and> finished rs' = finished rs \<and>
   run_id rs' = run_id rs \<and> graph_id rs' = graph_id rs"
  by (auto simp: loop_body_def Let_def split: sum.splits prod.splits option.splits if_splits)

lemma loop_body_ok:
  "call_node (nodes spec c) st = Inr (new_state, node_res) \<Longrightarrow>
   resolve_next node_res (edges spec) c (st ++ new_state) = Inr nx \<Longrightarrow>
   \<exists>rs'. loop_body spec c st rs = (Inr (nx, st ++ new_state), rs')"
  by (simp add: loop_body_def Let_def)

lemma advance_loop:
  "advance spec limit k (c, v, st, rs) = Some (c', v', st', rs') \<Longrightarrow>
   loop spec limit c v st rs = loop spec limit c' v' st' rs'"
proof (induction k arbitrary: c v st rs)
  case 0
  then show ?case by simp
next
  case (Suc k)
  from Suc.prems obtain x where c: "c = Some x"
    by (cases c) auto
  from Suc.prems c have lt: "v < limit"
    by (auto split: if_splits)
  from Suc.prems c lt obtain nx st1 rs1 where
    body: "loop_body spec x st rs = (Inr (nx, st1), rs1)" and
    rest: "advance spec limit k (nx, v + 1, st1, rs1) = Some (c', v', st', rs')"
    by (auto split: prod.splits sum.splits)
  from loop_next [OF lt body] Suc.IH [OF rest] c show ?case by simp
qed

lemma loop_runaway:
  assumes step: "\<And>c st. I c st \<Longrightarrow>
            \<exists>f new_state node_res nx.
              nodes spec c = Some f \<and> call_node (Some f) st = Inr (new_state, node_res) \<and>
              resolve_next node_res (edges spec) c (st ++ new_state) = Inr (Some nx) \<and>
              I nx (st ++ new_state)"
  shows "I c st \<Longrightarrow> visited \<le> limit \<Longrightarrow> nat (limit - visited) = d \<Longrightarrow>
         \<exists>rs'. loop spec limit (Some c) visited st rs = (None, limit, rs') \<and>
               logs rs' \<noteq> [] \<and> last (logs rs') = ''max steps reached; aborting'' \<and>
               error rs' = error rs \<and> finished rs' = finished rs"
proof (induction d arbitrary: c st visited rs)
  case 0
  then have "visited = limit" by simp
  then show ?case by (simp add: loop_abort)
next
  case (Suc d)
  then have lt: "visited < limit" by simp
  from step [OF Suc.prems(1)] obtain f new_state node_res nx where
    call: "call_node (nodes spec c) st = Inr (new_state, node_res)" and
    res: "resolve_next node_res (edges spec) c (st ++ new_state) = Inr (Some nx)" and
    inv: "I nx (st ++ new_state)"
    by force
  from loop_body_ok [OF call res] obtain rs1 where
    body: "loop_body spec c st rs = (Inr (Some nx, st ++ new_state), rs1)" by blast
  from loop_body_keeps [OF body] have keep: "error rs1 = error rs" "finished rs1 = finished rs"
    by simp_all
  from Suc.prems have d: "nat (limit - (visited + 1)) = d" and le: "visited + 1 \<le> limit"
    by simp_all
  from Suc.IH [OF inv le d, of rs1] loop_next [OF lt body] keep show ?case
    by simp
qed

lemma loop_visited_le:
  "visited \<le> limit \<Longrightarrow> fst (snd (loop spec limit current visited st rs)) \<le> limit"
proof (induction spec limit current visited st rs rule: loop.induct)
  case (1 spec limit current visited st run_state)
  show ?case
  proof (cases current)
    case None
    with 1 show ?thesis by (simp add: loop_None)
  next
    case (Some c)
    show ?thesis
    proof (cases "visited \<ge> limit")
      case True
      with Some 1 show ?thesis by (simp add: loop_abort)
    next
      case False
      obtain out rs' where body: "loop_body spec c st run_state = (out, rs')"
        by (cases "loop_body spec c st run_state")
      show ?thesis
      proof (cases out)
        case (Inl e)
        with False body Some show ?thesis by (simp add: loop_raise)
      next
        case (Inr p)
        obtain nx st' where p: "p = (nx, st')" by (cases p)
        from False have lt: "visited < limit" by simp
        from "1.IH" [OF Some False body [symmetric] Inr p [symmetric]] lt
        have "fst (snd (loop spec limit nx (visited + 1) st' rs')) \<le> limit" by simp
        with loop_next [OF lt body [unfolded Inr p]] Some show ?thesis by simp
      qed
    qed
  qed
qed

lemma loop_body_ignores_max_steps:
  "loop_body (spec\<lparr>max_steps := m\<rparr>) c st rs = loop_body spec c st rs"
  by (simp add: loop_body_def Let_def cong: sum.case_cong prod.case_cong)

lemma loop_ignores_max_steps:
  "loop (spec\<lparr>max_steps := m\<rparr>) limit current visited st rs =
   loop spec limit current visited st rs"
proof (induction spec limit current visited st rs rule: loop.induct)
  case (1 spec limit current visited st run_state)
  show ?case
  proof (cases current)
    case None
    then show ?thesis by (simp add: loop_None)
  next
    case (Some c)
    show ?thesis
    proof (cases "visited \<ge> limit")
      case True
      with Some show ?thesis by (simp add: loop_abort)
    next
      case False
      then have lt: "visited < limit" by simp
      obtain out rs' where body: "loop_body spec c st run_state = (out, rs')"
        by (cases "loop_body spec c st run_state")
      then have body': "loop_body (spec\<lparr>max_steps := m\<rparr>) c st run_state = (out, rs')"
        by (simp add: loop_body_ignores_max_steps)
      show ?thesis
      proof (cases out)
        case (Inl e)
        with lt body body' Some show ?thesis by (simp add: loop_raise)
      next
        case (Inr p)
        obtain nx st' where p: "p = (nx, st')" by (cases p)
        from "1.IH" [OF Some False body [symmetric] Inr p [symmetric]]
          loop_next [OF lt body [unfolded Inr p]] loop_next [OF lt body' [unfolded Inr p]] Some
        show ?thesis by simp
      qed
    qed
  qed
qed

section \<open>Branch resolution\<close>

text \<open>
  C1. When the node's result carries a next-node override that is a non-empty string,
  branch resolution returns that string, whatever the edge table holds for the current
  node: a literal, a branching dict, another value, or no entry. The loop pass of a node
  that returned such a result moves on to the override and logs the transition to it.
\<close>

theorem override_precedence:
  assumes override: "nr_next_node node_res = Some a" "a \<noteq> []"
  shows "resolve_next node_res edge_table current st = Inr (Some a) \<and>
         (call_node (nodes spec current) st0 = Inr (new_state, node_res)
          \<longrightarrow> (\<exists>rs'. loop_body spec current st0 rs = (Inr (Some a, st0 ++ new_state), rs') \<and>
                     last (logs rs') = current @ '' -> next: '' @ a))"
proof -
  from override have res: "resolve_next node_res tbl c s = Inr (Some a)" for tbl c s
    by (simp add: resolve_next_def)
  have "\<exists>rs'. loop_body spec current st0 rs = (Inr (Some a, st0 ++ new_state), rs') \<and>
              last (logs rs') = current @ '' -> next: '' @ a"
    if "call_node (nodes spec current) st0 = Inr (new_state, node_res)"
    using that res
    by (cases "nr_log node_res") (simp_all add: loop_body_def Let_def show_next_def)
  with res show ?thesis by blast
qed

theorem override_precedence_witness:
  "resolve_next \<lparr>nr_state = Map.empty, nr_log = None, nr_next_node = Some ''A''\<rparr>
     [''n'' \<mapsto> EDict \<lparr>e_cond = None, e_field = Some (PStr ''score''), e_op = Some (PStr ''>=''),
                         e_value = Some (PInt 80), e_true = Some ''B'', e_false = Some ''C'',
                         e_next = None\<rparr>]
     ''n'' [''score'' \<mapsto> PInt 90] = Inr (Some ''A'') \<and>
   fst (loop_body
     \<lparr>nodes = [''n'' \<mapsto> CoroutineFn (\<lambda>st. Inr (RNodeResult
                  \<lparr>nr_state = Map.empty, nr_log = None, nr_next_node = Some ''A''\<rparr>))],
      edges = [''n'' \<mapsto> EStr ''B''], start_node = ''n'', max_steps = None\<rparr>
     ''n'' [''score'' \<mapsto> PInt 90]
     \<lparr>run_id = ''r'', graph_id = ''g'', state = [''score'' \<mapsto> PInt 90], logs = [],
      current_node = None, finished = False, error = None\<rparr>)
     = Inr (Some ''A'', [''score'' \<mapsto> PInt 90])"
proof -
  let ?nr = "\<lparr>nr_state = Map.empty, nr_log = None, nr_next_node = Some ''A''\<rparr>"
  let ?spec = "\<lparr>nodes = [''n'' \<mapsto> CoroutineFn (\<lambda>st. Inr (RNodeResult ?nr))],
      edges = [''n'' \<mapsto> EStr ''B''], start_node = ''n'', max_steps = None\<rparr>"
  let ?rs = "\<lparr>run_id = ''r'', graph_id = ''g'', state = [''score'' \<mapsto> PInt 90], logs = [],
      current_node = None, finished = False, error = None\<rparr>"
  have call: "call_node (nodes ?spec ''n'') [''score'' \<mapsto> PInt 90] = Inr (Map.empty, ?nr)"
    by (simp add: call_node_def)
  from override_precedence
    [of ?nr "''A''"
        "[''n'' \<mapsto> EDict \<lparr>e_cond = None, e_field = Some (PStr ''score''), e_op = Some (PStr ''>=''),
                         e_value = Some (PInt 80), e_true = Some ''B'', e_false = Some ''C'',
                         e_next = None\<rparr>]" "''n''" "[''score'' \<mapsto> PInt 90]"
        ?spec "[''score'' \<mapsto> PInt 90]" Map.empty ?rs] call
  show ?thesis by auto
qed

text \<open>
  C2 does not hold of the code. The four ordering branches of the field comparison test
  \<^verbatim>\<open>val is not None\<close> first, so that a state without the key takes the "false"
  target; the equality branch is \<^verbatim>\<open>val == cmp_val\<close> alone. The value read for an absent
  key is None, and \<^verbatim>\<open>None == None\<close> holds: with the operator \<^verbatim>\<open>"=="\<close> and the
  comparison value None, and likewise with neither \<^verbatim>\<open>"op"\<close> nor \<^verbatim>\<open>"value"\<close> in the
  dict, a state without the key \<^verbatim>\<open>score\<close> is sent to the "true" target A, not to the
  "false" target B.
\<close>

theorem absent_key_equality_takes_true:
  "resolve_next \<lparr>nr_state = Map.empty, nr_log = None, nr_next_node = None\<rparr>
     [''check'' \<mapsto> EDict \<lparr>e_cond = None, e_field = Some (PStr ''score''),
                             e_op = Some (PStr ''==''), e_value = Some PNone,
                             e_true = Some ''A'', e_false = Some ''B'', e_next = None\<rparr>]
     ''check'' Map.empty = Inr (Some ''A'') \<and>
   resolve_next \<lparr>nr_state = Map.empty, nr_log = None, nr_next_node = None\<rparr>
     [''check'' \<mapsto> EDict \<lparr>e_cond = None, e_field = Some (PStr ''score''),
                             e_op = None, e_value = None,
                             e_true = Some ''A'', e_false = Some ''B'', e_next = None\<rparr>]
     ''check'' Map.empty = Inr (Some ''A'')"
  by (simp add: resolve_next_def take_true_def)

text \<open>
  Where the guard is in place the field comparison does what is asked of it: for a dict
  with a string under \<^verbatim>\<open>"field"\<close> and no callable \<^verbatim>\<open>"cond"\<close>, reached without an
  override, a state without the key takes the "false" target under each of the operators
  \<^verbatim>\<open>>=\<close>, \<^verbatim>\<open><=\<close>, \<^verbatim>\<open>>\<close>, \<^verbatim>\<open><\<close>, and under the equality default when the comparison
  value is not None; nothing is raised. With \<^verbatim>\<open>>=\<close> and 80, a state holding 80 takes the
  "true" target and a state holding 79 the "false" target.
\<close>

lemma field_comparison_guarded:
  assumes no_override: "nr_next_node node_res = None \<or> nr_next_node node_res = Some []"
      and entry: "edge_table current = Some (EDict edge)"
      and no_cond: "e_cond edge = None"
      and fld: "e_field edge = Some (PStr key)"
      and opr: "opr = (case e_op edge of None \<Rightarrow> PStr ''=='' | Some v \<Rightarrow> v)"
      and cmp_val: "cmp_val = (case e_value edge of None \<Rightarrow> PNone | Some v \<Rightarrow> v)"
  shows "(st key = None \<and>
            (opr = PStr ''>='' \<or> opr = PStr ''<='' \<or> opr = PStr ''>'' \<or> opr = PStr ''<'' \<or>
             cmp_val \<noteq> PNone)
          \<longrightarrow> resolve_next node_res edge_table current st = Inr (e_false edge)) \<and>
         (opr = PStr ''>='' \<and> cmp_val = PInt 80 \<and> st key = Some (PInt 80)
          \<longrightarrow> resolve_next node_res edge_table current st = Inr (e_true edge)) \<and>
         (opr = PStr ''>='' \<and> cmp_val = PInt 80 \<and> st key = Some (PInt 79)
          \<longrightarrow> resolve_next node_res edge_table current st = Inr (e_false edge))"
proof -
  have res: "resolve_next node_res edge_table current st =
        (case take_true opr (case st key of None \<Rightarrow> PNone | Some v \<Rightarrow> v) cmp_val of
           Inl e \<Rightarrow> Inl e
         | Inr t \<Rightarrow> Inr (if t then e_true edge else e_false edge))"
    using no_override entry no_cond fld opr cmp_val
    by (auto simp: resolve_next_def)
  have absent: "take_true opr PNone cmp_val =
        Inr (opr \<noteq> PStr ''>='' \<and> opr \<noteq> PStr ''<='' \<and> opr \<noteq> PStr ''>'' \<and> opr \<noteq> PStr ''<'' \<and>
             cmp_val = PNone)"
    by (auto simp: take_true_def)
  have ge80: "take_true (PStr ''>='') (PInt 80) (PInt 80) = Inr True"
    and ge79: "take_true (PStr ''>='') (PInt 79) (PInt 80) = Inr False"
    by (simp_all add: take_true_def)
  have c1: "resolve_next node_res edge_table current st = Inr (e_false edge)"
    if "st key = None"
       "opr = PStr ''>='' \<or> opr = PStr ''<='' \<or> opr = PStr ''>'' \<or> opr = PStr ''<'' \<or>
        cmp_val \<noteq> PNone"
    using that absent by (auto simp: res)
  have c3: "resolve_next node_res edge_table current st = Inr (e_true edge)"
    if "opr = PStr ''>=''" "cmp_val = PInt 80" "st key = Some (PInt 80)"
    using that ge80 by (simp add: res)
  have c4: "resolve_next node_res edge_table current st = Inr (e_false edge)"
    if "opr = PStr ''>=''" "cmp_val = PInt 80" "st key = Some (PInt 79)"
    using that ge79 by (simp add: res)
  from c1 c3 c4 show ?thesis by blast
qed

text \<open>
  C6, as stated, fails. The handler around the predicate is \<^verbatim>\<open>except Exception\<close>. A
  predicate whose await is cancelled raises \<^verbatim>\<open>CancelledError\<close>, which does not derive
  from \<^verbatim>\<open>Exception\<close>: branch resolution raises it instead of returning the "false"
  target B, \<^verbatim>\<open>_runner\<close> does not catch it either, and \<^verbatim>\<open>run_graph\<close> raises it to its
  caller with the run's error field not set.
\<close>

theorem cancelled_predicate_counterexample:
  "resolve_next \<lparr>nr_state = Map.empty, nr_log = None, nr_next_node = None\<rparr>
     [''n'' \<mapsto> EDict \<lparr>e_cond = Some (\<lambda>st. Inr (Coro (Inl (Exn CancelledError [])))),
                         e_field = None, e_op = None, e_value = None,
                         e_true = Some ''A'', e_false = Some ''B'', e_next = None\<rparr>]
     ''n'' Map.empty = Inl (Exn CancelledError []) \<and>
   fst (run_graph
     \<lparr>graphs = [''g'' \<mapsto>
        \<lparr>nodes = [''n'' \<mapsto> SyncFn (\<lambda>st. Inr (Plain (RDict Map.empty)))],
         edges = [''n'' \<mapsto> EDict \<lparr>e_cond = Some (\<lambda>st. Inr (Coro (Inl (Exn CancelledError [])))),
                         e_field = None, e_op = None, e_value = None,
                         e_true = Some ''A'', e_false = Some ''B'', e_next = None\<rparr>],
         start_node = ''n'', max_steps = Some 10\<rparr>],
      runs = Map.empty\<rparr>
     ''g'' Map.empty False ''r'') = Inl (Exn CancelledError [])"
  by (simp add: run_graph_def runner_def execute_def step_limit_def loop.simps loop_body_def
        call_node_def resolve_next_def cond_value_def Let_def)

text \<open>
  C6, amended. When the edge table holds a dict with a callable \<^verbatim>\<open>"cond"\<close> for the current
  node and the predicate raises an exception that derives from \<^verbatim>\<open>Exception\<close>, in the call
  or while its coroutine is awaited, branch resolution returns the dict's "false" target
  and raises nothing. The loop pass that contains it goes on to log the transition and
  leaves the run's error field as it was.
\<close>

theorem raising_predicate_counts_as_false:
  assumes no_override: "nr_next_node node_res = None \<or> nr_next_node node_res = Some []"
      and entry: "edges spec current = Some (EDict edge)"
      and pred: "e_cond edge = Some cond"
      and raises: "cond st = Inl e \<or> cond st = Inr (Coro (Inl e))"
      and caught: "is_Exception e"
  shows "resolve_next node_res (edges spec) current st = Inr (e_false edge) \<and>
         (call_node (nodes spec current) st0 = Inr (new_state, node_res) \<and> st = st0 ++ new_state
          \<longrightarrow> (\<exists>rs'. loop_body spec current st0 rs = (Inr (e_false edge, st), rs') \<and>
                     error rs' = error rs \<and>
                     last (logs rs') = current @ '' -> next: '' @ show_next (e_false edge)))"
proof -
  from raises caught have "cond_value cond st = Inr (PBool False)"
    by (auto simp: cond_value_def)
  with no_override entry pred
  have res: "resolve_next node_res (edges spec) current st = Inr (e_false edge)"
    by (auto simp: resolve_next_def)
  have "\<exists>rs'. loop_body spec current st0 rs = (Inr (e_false edge, st), rs') \<and>
              error rs' = error rs \<and>
              last (logs rs') = current @ '' -> next: '' @ show_next (e_false edge)"
    if call: "call_node (nodes spec current) st0 = Inr (new_state, node_res)"
      and st: "st = st0 ++ new_state"
    using call res [unfolded st]
    by (cases "nr_log node_res") (simp_all add: loop_body_def Let_def st)
  with res show ?thesis by blast
qed

theorem raising_predicate_counts_as_false_witness:
  "resolve_next \<lparr>nr_state = Map.empty, nr_log = None, nr_next_node = None\<rparr>
     [''n'' \<mapsto> EDict \<lparr>e_cond = Some (\<lambda>st. Inl (Exn UserError ''boom'')), e_field = None,
                         e_op = None, e_value = None, e_true = Some ''A'', e_false = Some ''B'',
                         e_next = None\<rparr>]
     ''n'' Map.empty = Inr (Some ''B'') \<and>
   fst (loop_body
     \<lparr>nodes = [''n'' \<mapsto> CoroutineFn (\<lambda>st. Inr (RNodeResult
                  \<lparr>nr_state = Map.empty, nr_log = None, nr_next_node = None\<rparr>))],
      edges = [''n'' \<mapsto> EDict \<lparr>e_cond = Some (\<lambda>st. Inl (Exn UserError ''boom'')), e_field = None,
                         e_op = None, e_value = None, e_true = Some ''A'', e_false = Some ''B'',
                         e_next = None\<rparr>],
      start_node = ''n'', max_steps = None\<rparr>
     ''n'' Map.empty
     \<lparr>run_id = ''r'', graph_id = ''g'', state = Map.empty, logs = [],
      current_node = None, finished = False, error = None\<rparr>) = Inr (Some ''B'', Map.empty)"
proof -
  let ?nr = "\<lparr>nr_state = Map.empty, nr_log = None, nr_next_node = None\<rparr>"
  let ?edge = "\<lparr>e_cond = Some (\<lambda>st::pydict. Inl (Exn UserError ''boom'') :: exn + pyval ret),
                 e_field = None,
                 e_op = None, e_value = None, e_true = Some ''A'', e_false = Some ''B'',
                 e_next = None\<rparr>"
  let ?spec = "\<lparr>nodes = [''n'' \<mapsto> CoroutineFn (\<lambda>st. Inr (RNodeResult ?nr))],
      edges = [''n'' \<mapsto> EDict ?edge], start_node = ''n'', max_steps = None\<rparr>"
  let ?rs = "\<lparr>run_id = ''r'', graph_id = ''g'', state = Map.empty, logs = [],
      current_node = None, finished = False, error = None\<rparr>"
  have call: "call_node (nodes ?spec ''n'') Map.empty = Inr (Map.empty, ?nr)"
    by (simp add: call_node_def)
  from raising_predicate_counts_as_false
    [of ?nr ?spec "''n''" ?edge "\<lambda>st. Inl (Exn UserError ''boom'')" Map.empty "Exn UserError ''boom''"
        Map.empty Map.empty ?rs] call
  show ?thesis by auto
qed

section \<open>Calling a node\<close>

text \<open>
  C7, as stated, fails: the NodeResult that \<^verbatim>\<open>_call_node\<close> builds for a node that
  returned neither a NodeResult nor a dict does not carry an empty state update. Its
  state field is the whole current state.
\<close>

theorem fallback_state_update_counterexample:
  "call_node (Some (SyncFn (\<lambda>st. Inr (Plain ROther)))) [''a'' \<mapsto> PInt 1]
     = Inr ([''a'' \<mapsto> PInt 1],
            \<lparr>nr_state = [''a'' \<mapsto> PInt 1],
             nr_log = Some ''node returned unexpected type; no change'',
             nr_next_node = None\<rparr>) \<and>
   [''a'' \<mapsto> PInt 1] \<noteq> (Map.empty :: pydict)"
proof -
  have "[''a'' \<mapsto> PInt 1] ''a'' \<noteq> (Map.empty :: pydict) ''a''" by simp
  then have "[''a'' \<mapsto> PInt 1] \<noteq> (Map.empty :: pydict)" by metis
  then show ?thesis by (simp add: call_node_def)
qed

text \<open>
  C7, amended. For a node that returns a value that is neither a NodeResult nor a dict
  (None included; at once, from a coroutine function, or from a coroutine it returned),
  \<^verbatim>\<open>_call_node\<close> does not raise: it returns the current state together with a synthetic
  NodeResult whose state update is the current state itself, whose log is
  \<^verbatim>\<open>node returned unexpected type; no change\<close> and which has no next-node override.
  Merging that update leaves the state unchanged, and the loop pass goes on to branch
  resolution on the unchanged state, with the run's error field as it was.
\<close>

theorem malformed_result_fallback:
  assumes other: "node_fn = CoroutineFn f \<and> f st = Inr ROther \<or>
                  node_fn = SyncFn g \<and> (g st = Inr (Plain ROther) \<or> g st = Inr (Coro (Inr ROther)))"
      and synth: "synth = \<lparr>nr_state = st, nr_log = Some ''node returned unexpected type; no change'',
                           nr_next_node = None\<rparr>"
  shows "call_node (Some node_fn) st = Inr (st, synth) \<and>
         st ++ nr_state synth = st \<and>
         (nodes spec c = Some node_fn \<longrightarrow>
            fst (loop_body spec c st rs) =
              (case resolve_next synth (edges spec) c st of
                 Inl e \<Rightarrow> Inl e
               | Inr next_node \<Rightarrow> Inr (next_node, st)) \<and>
            state (snd (loop_body spec c st rs)) = st \<and>
            error (snd (loop_body spec c st rs)) = error rs)"
proof -
  from other synth have call: "call_node (Some node_fn) st = Inr (st, synth)"
    by (auto simp: call_node_def)
  have idem: "st ++ st = st"
    by (rule ext) (simp add: map_add_def split: option.splits)
  then have merge: "st ++ nr_state synth = st"
    by (simp add: synth)
  have "fst (loop_body spec c st rs) =
              (case resolve_next synth (edges spec) c st of
                 Inl e \<Rightarrow> Inl e
               | Inr next_node \<Rightarrow> Inr (next_node, st)) \<and>
        state (snd (loop_body spec c st rs)) = st \<and>
        error (snd (loop_body spec c st rs)) = error rs"
    if "nodes spec c = Some node_fn"
    using that call
    by (simp add: loop_body_def Let_def synth idem split: sum.splits)
  with call merge show ?thesis by blast
qed

theorem malformed_result_fallback_witness:
  "call_node (Some (SyncFn (\<lambda>st. Inr (Plain ROther)))) [''a'' \<mapsto> PInt 1]
     = Inr ([''a'' \<mapsto> PInt 1],
            \<lparr>nr_state = [''a'' \<mapsto> PInt 1],
             nr_log = Some ''node returned unexpected type; no change'',
             nr_next_node = None\<rparr>) \<and>
   fst (loop_body \<lparr>nodes = [''n'' \<mapsto> SyncFn (\<lambda>st. Inr (Plain ROther))],
                   edges = [''n'' \<mapsto> EStr ''m''], start_node = ''n'', max_steps = None\<rparr>
          ''n'' [''a'' \<mapsto> PInt 1]
          \<lparr>run_id = ''r'', graph_id = ''g'', state = [''a'' \<mapsto> PInt 1], logs = [],
           current_node = None, finished = False, error = None\<rparr>)
     = Inr (Some ''m'', [''a'' \<mapsto> PInt 1])"
proof -
  let ?f = "SyncFn (\<lambda>st. Inr (Plain ROther))"
  let ?spec = "\<lparr>nodes = [''n'' \<mapsto> ?f],
                   edges = [''n'' \<mapsto> EStr ''m''], start_node = ''n'', max_steps = None\<rparr>"
  let ?rs = "\<lparr>run_id = ''r'', graph_id = ''g'', state = [''a'' \<mapsto> PInt 1], logs = [],
           current_node = None, finished = False, error = None\<rparr>"
  from malformed_result_fallback
    [of ?f "\<lambda>st. Inr ROther" "[''a'' \<mapsto> PInt 1]" "\<lambda>st. Inr (Plain ROther)"
        "\<lparr>nr_state = [''a'' \<mapsto> PInt 1],
          nr_log = Some ''node returned unexpected type; no change'', nr_next_node = None\<rparr>"
        ?spec "''n''" ?rs]
  show ?thesis by (simp add: resolve_next_def)
qed

section \<open>The execution loop\<close>



text \<open>
  C10. When the graph's \<^verbatim>\<open>max_steps\<close> is None or 0, the loop runs with the limit 1000:
  \<^verbatim>\<open>_execute\<close> behaves as for the same graph with \<^verbatim>\<open>max_steps = 1000\<close>, the first pass is
  not cut off by the limit test, no run begins more than 1000 node steps, and a graph
  whose steps never end (as in C3) begins exactly 1000.
\<close>

theorem zero_budget_is_1000:
  assumes budget: "max_steps spec = None \<or> max_steps spec = Some 0"
  shows "step_limit spec = 1000 \<and>
         execute spec rs = execute (spec\<lparr>max_steps := Some 1000\<rparr>) rs \<and>
         loop spec (step_limit spec) (Some c) 0 st rs =
           (case loop_body spec c st rs of
              (Inl e, rs') \<Rightarrow> (Some e, 1, rs')
            | (Inr (nx, st'), rs') \<Rightarrow> loop spec 1000 nx 1 st' rs') \<and>
         fst (snd (loop spec (step_limit spec) (Some c) 0 st rs)) \<le> 1000 \<and>
         (I c st \<and>
          (\<forall>c st. I c st \<longrightarrow>
            (\<exists>f new_state node_res nx.
              nodes spec c = Some f \<and> call_node (Some f) st = Inr (new_state, node_res) \<and>
              resolve_next node_res (edges spec) c (st ++ new_state) = Inr (Some nx) \<and>
              I nx (st ++ new_state)))
          \<longrightarrow> fst (snd (loop spec (step_limit spec) (Some c) 0 st rs)) = 1000)"
proof -
  from budget have lim: "step_limit spec = 1000"
    by (auto simp: step_limit_def)
  have ex: "execute spec rs = execute (spec\<lparr>max_steps := Some 1000\<rparr>) rs"
    using lim by (simp add: execute_def step_limit_def loop_ignores_max_steps)
  have first: "loop spec (step_limit spec) (Some c) 0 st rs =
           (case loop_body spec c st rs of
              (Inl e, rs') \<Rightarrow> (Some e, 1, rs')
            | (Inr (nx, st'), rs') \<Rightarrow> loop spec 1000 nx 1 st' rs')"
    by (subst loop.simps) (auto simp: lim split: prod.splits sum.splits)
  have le: "fst (snd (loop spec (step_limit spec) (Some c) 0 st rs)) \<le> 1000"
    using loop_visited_le [of 0 1000 spec "Some c" st rs] lim by simp
  have run: "fst (snd (loop spec (step_limit spec) (Some c) 0 st rs)) = 1000"
    if inv: "I c st" and step: "\<forall>c st. I c st \<longrightarrow>
            (\<exists>f new_state node_res nx.
              nodes spec c = Some f \<and> call_node (Some f) st = Inr (new_state, node_res) \<and>
              resolve_next node_res (edges spec) c (st ++ new_state) = Inr (Some nx) \<and>
              I nx (st ++ new_state))"
  proof -
    from step have step': "\<And>c st. I c st \<Longrightarrow>
            \<exists>f new_state node_res nx.
              nodes spec c = Some f \<and> call_node (Some f) st = Inr (new_state, node_res) \<and>
              resolve_next node_res (edges spec) c (st ++ new_state) = Inr (Some nx) \<and>
              I nx (st ++ new_state)"
      by blast
    from loop_runaway [of I spec c st 0 1000 "nat 1000" rs, OF step' inv] lim
    show ?thesis by auto
  qed
  from lim ex first le run show ?thesis by blast
qed

theorem zero_budget_is_1000_witness:
  "step_limit \<lparr>nodes = [''a'' \<mapsto> SyncFn (\<lambda>st. Inr (Plain (RDict Map.empty)))],
               edges = [''a'' \<mapsto> EStr ''a''], start_node = ''a'', max_steps = Some 0\<rparr> = 1000 \<and>
   fst (snd (loop \<lparr>nodes = [''a'' \<mapsto> SyncFn (\<lambda>st. Inr (Plain (RDict Map.empty)))],
                   edges = [''a'' \<mapsto> EStr ''a''], start_node = ''a'', max_steps = Some 0\<rparr>
              1000 (Some ''a'') 0 Map.empty
              \<lparr>run_id = ''r'', graph_id = ''g'', state = Map.empty, logs = [],
               current_node = None, finished = False, error = None\<rparr>)) = 1000"
proof -
  let ?spec = "\<lparr>nodes = [''a'' \<mapsto> SyncFn (\<lambda>st. Inr (Plain (RDict Map.empty)))],
                   edges = [''a'' \<mapsto> EStr ''a''], start_node = ''a'', max_steps = Some (0::int)\<rparr>"
  let ?rs = "\<lparr>run_id = ''r'', graph_id = ''g'', state = Map.empty, logs = [],
               current_node = None, finished = False, error = None\<rparr>"
  have step: "\<forall>c st. c = ''a'' \<longrightarrow>
            (\<exists>f new_state node_res nx.
              nodes ?spec c = Some f \<and> call_node (Some f) st = Inr (new_state, node_res) \<and>
              resolve_next node_res (edges ?spec) c (st ++ new_state) = Inr (Some nx) \<and>
              nx = ''a'')"
    by (simp add: call_node_def resolve_next_def)
  have b: "max_steps ?spec = None \<or> max_steps ?spec = Some 0" by simp
  note t = zero_budget_is_1000 [of ?spec ?rs "''a''" Map.empty "\<lambda>c st. c = ''a''", OF b]
  from t have lim: "step_limit ?spec = 1000" by blast
  from t step have "fst (snd (loop ?spec (step_limit ?spec) (Some ''a'') 0 Map.empty ?rs)) = 1000"
    by blast
  with lim show ?thesis by simp
qed

text \<open>
  C8. The graph with nodes N1 and N2, the edge table \<^verbatim>\<open>{N1: "N2"}\<close> and start node N1,
  where N1 returns \<^verbatim>\<open>{"x": 1}\<close> and N2 returns \<^verbatim>\<open>{"x": 2}\<close>, run in the foreground from
  the empty state: the run record ends with state \<^verbatim>\<open>{"x": 2}\<close>, finished, without error,
  and with exactly the six log entries below, in this order. A node that returns a bare
  dict gets the log line \<^verbatim>\<open>node returned dict\<close>.
\<close>

theorem two_node_run:
  "run_graph
     \<lparr>graphs = [''g'' \<mapsto>
         \<lparr>nodes = [''N1'' \<mapsto> SyncFn (\<lambda>st. Inr (Plain (RDict [''x'' \<mapsto> PInt 1]))),
                   ''N2'' \<mapsto> SyncFn (\<lambda>st. Inr (Plain (RDict [''x'' \<mapsto> PInt 2])))],
          edges = [''N1'' \<mapsto> EStr ''N2''], start_node = ''N1'', max_steps = Some 1000\<rparr>],
      runs = Map.empty\<rparr>
     ''g'' Map.empty False ''r''
   = (Inr ''r'',
      \<lparr>graphs = [''g'' \<mapsto>
         \<lparr>nodes = [''N1'' \<mapsto> SyncFn (\<lambda>st. Inr (Plain (RDict [''x'' \<mapsto> PInt 1]))),
                   ''N2'' \<mapsto> SyncFn (\<lambda>st. Inr (Plain (RDict [''x'' \<mapsto> PInt 2])))],
          edges = [''N1'' \<mapsto> EStr ''N2''], start_node = ''N1'', max_steps = Some 1000\<rparr>],
       runs = [''r'' \<mapsto>
         \<lparr>run_id = ''r'', graph_id = ''g'', state = [''x'' \<mapsto> PInt 2],
          logs = [''running N1'', ''N1: node returned dict'', ''N1 -> next: N2'',
                  ''running N2'', ''N2: node returned dict'', ''N2 -> next: None''],
          current_node = None, finished = True, error = None\<rparr>]\<rparr>)"
  by (simp add: run_graph_def runner_def execute_def step_limit_def loop.simps loop_body_def
        call_node_def resolve_next_def show_next_def Let_def)

section \<open>Starting and ending a run\<close>

text \<open>
  C5. For a graph identifier that is not in the graph registry, \<^verbatim>\<open>run_graph\<close> raises
  \<^verbatim>\<open>KeyError("graph not found")\<close> to its caller, in foreground and in background mode
  alike, and leaves the engine as it was: no run record has been created or registered.
\<close>

theorem unknown_graph_rejected:
  "graphs eng gid = None \<Longrightarrow>
   run_graph eng gid initial_state run_in_background new_id = (Inl graph_not_found, eng)"
  by (simp add: run_graph_def)

theorem unknown_graph_rejected_witness:
  "graphs \<lparr>graphs = Map.empty, runs = Map.empty\<rparr> ''g'' = None \<and>
   run_graph \<lparr>graphs = Map.empty, runs = Map.empty\<rparr> ''g'' [''x'' \<mapsto> PInt 1] True ''r'' =
     (Inl (Exn KeyError (CHR 0x27 # ''graph not found'' @ [CHR 0x27])),
      \<lparr>graphs = Map.empty, runs = Map.empty\<rparr>)"
  using unknown_graph_rejected
    [of "\<lparr>graphs = Map.empty, runs = Map.empty\<rparr>" "''g''" "[''x'' \<mapsto> PInt 1]" True "''r''"]
  by (simp add: graph_not_found_def quoted_def)

text \<open>
  C4, as stated, fails. The loop has no test for a node name that is not a key of
  \<^verbatim>\<open>nodes\<close>: \<^verbatim>\<open>nodes.get\<close> gives None, and the error recorded is the text of the
  TypeError that calling None raises, \<^verbatim>\<open>'NoneType' object is not callable\<close>, which says
  nothing of a node that was not found. In the graph below node a leads to b, which is not
  defined; the run record is the very one left by the graph in which b is defined and
  raises that TypeError itself.
\<close>

theorem missing_node_error_counterexample:
  "error (snd (runner
     \<lparr>nodes = [''a'' \<mapsto> SyncFn (\<lambda>st. Inr (Plain (RDict [''x'' \<mapsto> PInt 1])))],
      edges = [''a'' \<mapsto> EStr ''b''], start_node = ''a'', max_steps = Some 50\<rparr>
     \<lparr>run_id = ''r'', graph_id = ''g'', state = Map.empty, logs = [],
      current_node = None, finished = False, error = None\<rparr>))
   = Some (CHR 0x27 # ''NoneType'' @ CHR 0x27 # '' object is not callable'') \<and>
   runner
     \<lparr>nodes = [''a'' \<mapsto> SyncFn (\<lambda>st. Inr (Plain (RDict [''x'' \<mapsto> PInt 1])))],
      edges = [''a'' \<mapsto> EStr ''b''], start_node = ''a'', max_steps = Some 50\<rparr>
     \<lparr>run_id = ''r'', graph_id = ''g'', state = Map.empty, logs = [],
      current_node = None, finished = False, error = None\<rparr>
   = runner
     \<lparr>nodes = [''a'' \<mapsto> SyncFn (\<lambda>st. Inr (Plain (RDict [''x'' \<mapsto> PInt 1]))),
               ''b'' \<mapsto> SyncFn (\<lambda>st. Inl (Exn TypeError
                         (CHR 0x27 # ''NoneType'' @ CHR 0x27 # '' object is not callable'')))],
      edges = [''a'' \<mapsto> EStr ''b''], start_node = ''a'', max_steps = Some 50\<rparr>
     \<lparr>run_id = ''r'', graph_id = ''g'', state = Map.empty, logs = [],
      current_node = None, finished = False, error = None\<rparr>"
  by (simp add: runner_def execute_def step_limit_def loop.simps loop_body_def
        call_node_def resolve_next_def show_next_def Let_def not_callable_def quoted_def)

text \<open>
  C4, amended. Let a run of a registered graph reach, after any number of complete steps,
  a current node \<open>x\<close> that is not a key of \<^verbatim>\<open>nodes\<close>, with fewer steps begun than the
  step limit allows (\<open>visited < step_limit spec\<close>), so that the step for \<open>x\<close> begins.
  Calling the missing node raises TypeError, which \<^verbatim>\<open>_runner\<close> catches: the run record
  ends finished, with the error text \<^verbatim>\<open>'NoneType' object is not callable\<close> of that
  TypeError, and with \<^verbatim>\<open>running x\<close> as its last log entry. \<^verbatim>\<open>run_graph\<close> returns the
  run identifier to its caller, and the registry differs from the one before only at that
  identifier. The background task ends with the same registry.
\<close>

theorem missing_node_ends_run:
  assumes graph: "graphs eng gid = Some spec"
      and start: "start_node spec \<noteq> []"
      and fresh: "fresh = \<lparr>run_id = new_id, graph_id = gid, state = initial_state, logs = [],
                           current_node = None, finished = False, error = None\<rparr>"
      and reach: "advance spec (step_limit spec) k (Some (start_node spec), 0, initial_state, fresh)
                    = Some (Some x, visited, st, rs)"
      and budget: "visited < step_limit spec"
      and missing: "nodes spec x = None"
  shows "run_graph eng gid initial_state False new_id
           = (Inr new_id,
              eng\<lparr>runs := (runs eng)(new_id \<mapsto>
                     rs\<lparr>current_node := Some x, logs := logs rs @ [''running '' @ x],
                        error := Some (quoted ''NoneType'' @ '' object is not callable''),
                        finished := True\<rparr>)\<rparr>) \<and>
         run_task (snd (run_graph eng gid initial_state True new_id)) spec new_id
           = eng\<lparr>runs := (runs eng)(new_id \<mapsto>
                     rs\<lparr>current_node := Some x, logs := logs rs @ [''running '' @ x],
                        error := Some (quoted ''NoneType'' @ '' object is not callable''),
                        finished := True\<rparr>)\<rparr>"
proof -
  let ?r = "rs\<lparr>current_node := Some x, logs := logs rs @ [''running '' @ x],
               error := Some (exn_str not_callable), finished := True\<rparr>"
  from advance_loop [OF reach]
  have "loop spec (step_limit spec) (Some (start_node spec)) 0 initial_state fresh =
        loop spec (step_limit spec) (Some x) visited st rs" .
  also from loop_raise [OF budget loop_body_missing [OF missing]]
  have "\<dots> = (Some not_callable, visited + 1,
               rs\<lparr>current_node := Some x, logs := logs rs @ [''running '' @ x]\<rparr>)" .
  finally have "execute spec fresh =
        (Some not_callable, rs\<lparr>current_node := Some x, logs := logs rs @ [''running '' @ x]\<rparr>)"
    using start fresh by (simp add: execute_def)
  then have run: "runner spec fresh = (None, ?r)"
    by (simp add: runner_def not_callable_def)
  from graph fresh run have fg: "run_graph eng gid initial_state False new_id
                 = (Inr new_id, eng\<lparr>runs := (runs eng)(new_id \<mapsto> ?r)\<rparr>)"
    by (simp add: run_graph_def)
  from graph fresh run have bg: "run_task (snd (run_graph eng gid initial_state True new_id)) spec new_id
                 = eng\<lparr>runs := (runs eng)(new_id \<mapsto> ?r)\<rparr>"
    by (simp add: run_graph_def run_task_def)
  from fg bg show ?thesis by (simp add: not_callable_def)
qed

theorem missing_node_ends_run_witness:
  "run_graph
     \<lparr>graphs = [''g'' \<mapsto>
         \<lparr>nodes = [''a'' \<mapsto> SyncFn (\<lambda>st. Inr (Plain (RDict [''x'' \<mapsto> PInt 1])))],
          edges = [''a'' \<mapsto> EStr ''b''], start_node = ''a'', max_steps = Some 50\<rparr>],
      runs = [''old'' \<mapsto> \<lparr>run_id = ''old'', graph_id = ''g'', state = Map.empty, logs = [],
                            current_node = None, finished = True, error = None\<rparr>]\<rparr>
     ''g'' Map.empty False ''r''
   = (Inr ''r'',
      \<lparr>graphs = [''g'' \<mapsto>
         \<lparr>nodes = [''a'' \<mapsto> SyncFn (\<lambda>st. Inr (Plain (RDict [''x'' \<mapsto> PInt 1])))],
          edges = [''a'' \<mapsto> EStr ''b''], start_node = ''a'', max_steps = Some 50\<rparr>],
       runs = [''old'' \<mapsto> \<lparr>run_id = ''old'', graph_id = ''g'', state = Map.empty, logs = [],
                             current_node = None, finished = True, error = None\<rparr>,
               ''r'' \<mapsto> \<lparr>run_id = ''r'', graph_id = ''g'', state = [''x'' \<mapsto> PInt 1],
                           logs = [''running a'', ''a: node returned dict'', ''a -> next: b'',
                                   ''running b''],
                           current_node = Some ''b'', finished = True,
                           error = Some (CHR 0x27 # ''NoneType'' @ CHR 0x27 # '' object is not callable'')\<rparr>]\<rparr>)"
proof -
  let ?spec = "\<lparr>nodes = [''a'' \<mapsto> SyncFn (\<lambda>st. Inr (Plain (RDict [''x'' \<mapsto> PInt 1])))],
          edges = [''a'' \<mapsto> EStr ''b''], start_node = ''a'', max_steps = Some (50::int)\<rparr>"
  let ?eng = "\<lparr>graphs = [''g'' \<mapsto> ?spec],
      runs = [''old'' \<mapsto> \<lparr>run_id = ''old'', graph_id = ''g'', state = Map.empty, logs = [],
                            current_node = None, finished = True, error = None\<rparr>]\<rparr>"
  let ?fresh = "\<lparr>run_id = ''r'', graph_id = ''g'', state = Map.empty, logs = [],
                           current_node = None, finished = False, error = None\<rparr>"
  let ?rs = "\<lparr>run_id = ''r'', graph_id = ''g'', state = [''x'' \<mapsto> PInt 1],
              logs = [''running a'', ''a: node returned dict'', ''a -> next: b''],
              current_node = Some ''a'', finished = False, error = None\<rparr>"
  have lim: "step_limit ?spec = 50" by (simp add: step_limit_def)
  have reach: "advance ?spec (step_limit ?spec) (Suc 0) (Some (start_node ?spec), 0, Map.empty, ?fresh)
                 = Some (Some ''b'', 1, [''x'' \<mapsto> PInt 1], ?rs)"
    by (simp add: lim loop_body_def call_node_def resolve_next_def show_next_def Let_def)
  have budget: "(1::int) < step_limit ?spec" by (simp add: lim)
  from missing_node_ends_run [of ?eng "''g''" ?spec ?fresh "''r''" Map.empty "Suc 0" "''b''" 1
                                 "[''x'' \<mapsto> PInt 1]" ?rs, OF _ _ refl reach budget]
  show ?thesis by (simp add: quoted_def)
qed

text \<open>
  C9 does not hold of the code. \<^verbatim>\<open>_execute\<close> clears \<^verbatim>\<open>current_node\<close> where it sets
  \<^verbatim>\<open>finished\<close>, after the loop; the handler in \<^verbatim>\<open>_runner\<close> sets \<^verbatim>\<open>finished\<close> and
  \<^verbatim>\<open>error\<close> only. In the graph below node a leads to b, which is not defined: the run
  ends finished, with an error, and with \<^verbatim>\<open>current_node\<close> still b.
\<close>

theorem failed_run_keeps_current_node:
  "runner \<lparr>nodes = [''a'' \<mapsto> SyncFn (\<lambda>st. Inr (Plain (RDict [''x'' \<mapsto> PInt 1])))],
           edges = [''a'' \<mapsto> EStr ''b''], start_node = ''a'', max_steps = Some 50\<rparr>
     \<lparr>run_id = ''r'', graph_id = ''g'', state = Map.empty, logs = [],
      current_node = None, finished = False, error = None\<rparr>
   = (None,
      \<lparr>run_id = ''r'', graph_id = ''g'', state = [''x'' \<mapsto> PInt 1],
      logs = [''running a'', ''a: node returned dict'', ''a -> next: b'', ''running b''],
      current_node = Some ''b'', finished = True,
      error = Some (CHR 0x27 # ''NoneType'' @ CHR 0x27 # '' object is not callable'')\<rparr>)"
  by (simp add: runner_def execute_def step_limit_def loop.simps loop_body_def
        call_node_def resolve_next_def show_next_def Let_def not_callable_def quoted_def)

text \<open>A run that \<^verbatim>\<open>_execute\<close> ends without an exception is finished and has no current node.\<close>

lemma normal_end_clears_current_node:
  "execute spec rs = (None, rs') \<Longrightarrow> finished rs' \<and> current_node rs' = None"
  by (auto simp: execute_def split: if_splits prod.splits option.splits)

end
